theory Spec2Isabelle
  imports Complex_Main "HOL-Library.Word" "HOL-Library.Multiset" "HOL-Library.Log_Nat"
begin

section \<open>Strings, blobs and the data model of types.ts\<close>

text \<open>
  A JavaScript string is a sequence of UTF-16 code units; \<open>length\<close>, \<open>substring\<close>,
  \<open>split\<close> and the regular expressions of the sources all work on code units.
  \<open>js\<close> turns an ASCII literal into such a string.
\<close>

type_synonym jschar = "16 word"
type_synonym jsstring = "jschar list"

definition js :: "string \<Rightarrow> jsstring" where
  "js s = map (\<lambda>c. of_nat (of_char c)) s"

text \<open>A \<open>Blob\<close> is its MIME type and its bytes; a \<open>File\<close> adds a name and the
  path relative to the picked directory. \<open>file.size\<close> is the number of bytes.\<close>

record Blob =
  blob_type :: jsstring
  blob_bytes :: "8 word list"

record File = Blob +
  file_name :: jsstring
  webkitRelativePath :: jsstring

definition file_size :: "'a File_scheme \<Rightarrow> nat" where
  "file_size f = length (blob_bytes f)"

datatype item_type = image | pdf

record FileItem =
  item_id :: jsstring
  item_name :: jsstring
  item_path :: jsstring
  item_file :: File
  item_kind :: item_type
  selected :: bool
  rotation :: int

datatype folder_status = pending | processing | completed | error

record FolderGroup =
  folderName :: jsstring
  files :: "FileItem list"
  status :: folder_status
  resultDocBlob :: "Blob option"


datatype block_type =
  heading | subheading | author | paragraph_block | image_description
  | table_row | table_crop | formula_crop | image_crop

record PageContentBlock =
  block_kind :: block_type
  block_text :: jsstring
  isTranslated :: "bool option"
  boundingBox :: "int list option"

text \<open>\<open>pageNumber\<close> is \<open>None\<close> where the analysis returned \<open>null\<close> or left the
  field out.\<close>

record PageAnalysisResult =
  pageNumber :: "int option"
  blocks :: "PageContentBlock list"
  hasContinuingSentence :: bool

record DocxGenerationData =
  originalFileName :: jsstring
  analysis :: PageAnalysisResult
  imageBlob :: "Blob option"
  sourceType :: item_type

section \<open>Array and string primitives of the JavaScript library\<close>

text \<open>\<open>Array.prototype.join\<close>: the elements separated by \<open>sep\<close>; the empty array
  gives the empty string.\<close>

fun join :: "jsstring \<Rightarrow> jsstring list \<Rightarrow> jsstring" where
  "join sep [] = []"
| "join sep [x] = x"
| "join sep (x # y # ys) = x @ sep @ join sep (y # ys)"

text \<open>\<open>s.substring(a, b)\<close> for \<open>0 \<le> a\<close>; a negative start, which the sources can
  produce as \<open>length - 100\<close>, counts as 0, which is what truncating subtraction on
  \<open>nat\<close> gives the caller.\<close>

definition substring :: "jsstring \<Rightarrow> nat \<Rightarrow> nat \<Rightarrow> jsstring" where
  "substring s a b = take (max a b - min a b) (drop (min a b) s)"

definition substring_from :: "jsstring \<Rightarrow> nat \<Rightarrow> jsstring" where
  "substring_from s a = drop a s"

text \<open>
  \<open>Array.prototype.sort\<close> with a comparator is stable: an element goes before the
  first element of the sorted rest that it does not compare greater than. For a
  comparator that is the difference of two keys every stable sort returns this list.
\<close>

fun insert_by :: "('a \<Rightarrow> 'a \<Rightarrow> int) \<Rightarrow> 'a \<Rightarrow> 'a list \<Rightarrow> 'a list" where
  "insert_by cmp x [] = [x]"
| "insert_by cmp x (y # ys) =
     (if cmp x y \<le> 0 then x # y # ys else y # insert_by cmp x ys)"

definition array_sort :: "('a \<Rightarrow> 'a \<Rightarrow> int) \<Rightarrow> 'a list \<Rightarrow> 'a list" where
  "array_sort cmp xs = foldr (insert_by cmp) xs []"

section \<open>geminiService.ts: reordering pages by content\<close>

datatype service_error =
  ApiKeyMissing
  | NoCanvasContext
  | CanvasToBlobFailed
  | ImageLoadFailed
  | PdfLoadFailed
  | NoPdfPages
  | ReadFailed

text \<open>\<open>getAiClient\<close> throws when the environment holds no API key.\<close>

definition getAiClient :: "bool \<Rightarrow> service_error + unit" where
  "getAiClient api_key = (if api_key then Inr () else Inl ApiKeyMissing)"

record PageSummary =
  tempId :: nat
  fileName :: jsstring
  detectedPageNum :: "int option"
  firstSentence :: jsstring
  lastSentence :: jsstring

definition pageSummary :: "nat \<Rightarrow> DocxGenerationData \<Rightarrow> PageSummary" where
  "pageSummary index p =
     (let textBlocks = filter (\<lambda>b. block_kind b = paragraph_block \<or> block_kind b = heading)
                          (blocks (analysis p));
          firstText = (if length textBlocks > 0
                       then substring (block_text (hd textBlocks)) 0 100 else []);
          lastText = (if length textBlocks > 0
                      then substring_from (block_text (last textBlocks))
                             (length (block_text (last textBlocks)) - 100)
                      else [])
      in \<lparr> tempId = index, fileName = originalFileName p,
           detectedPageNum = pageNumber (analysis p),
           firstSentence = firstText, lastSentence = lastText \<rparr>)"

definition pagesSummary :: "DocxGenerationData list \<Rightarrow> PageSummary list" where
  "pagesSummary pages = map (\<lambda>(index, p). pageSummary index p) (enumerate 0 pages)"

text \<open>
  What the ranking call gives back: the call rejects; the response has no text; the text
  does not parse as a JSON array (\<open>JSON.parse\<close> throws, or \<open>forEach\<close> is missing on the
  parsed value); or the text is a JSON array of integers, as the response schema asks.
\<close>

datatype ranking_response =
  CallRejected
  | NoText
  | NotAnArray
  | Ids "int list"

text \<open>\<open>pages[id]\<close> is an object, hence truthy, exactly when \<open>id\<close> is an index of the
  array; otherwise it is \<open>undefined\<close> and the page is not pushed.\<close>

definition pushHinted :: "'a list \<Rightarrow> int list \<Rightarrow> 'a list" where
  "pushHinted pages newOrderIds =
     concat (map (\<lambda>i. if 0 \<le> i \<and> i < int (length pages) then [pages ! nat i] else [])
                 newOrderIds)"

definition pushMissing :: "'a list \<Rightarrow> int list \<Rightarrow> 'a list" where
  "pushMissing pages newOrderIds =
     map snd (filter (\<lambda>(idx, p). int idx \<notin> set newOrderIds) (enumerate 0 pages))"

text \<open>\<open>a.analysis.pageNumber || 999\<close>: a missing number and the number 0 are falsy.\<close>

definition pageNumberOr999 :: "DocxGenerationData \<Rightarrow> int" where
  "pageNumberOr999 p =
     (case pageNumber (analysis p) of
        None \<Rightarrow> 999
      | Some n \<Rightarrow> if n = 0 then 999 else n)"

definition defaultSort :: "DocxGenerationData list \<Rightarrow> DocxGenerationData list" where
  "defaultSort pages = array_sort (\<lambda>a b. pageNumberOr999 a - pageNumberOr999 b) pages"

definition reorderPagesByContent ::
  "bool \<Rightarrow> (PageSummary list \<Rightarrow> ranking_response) \<Rightarrow> DocxGenerationData list
     \<Rightarrow> service_error + DocxGenerationData list" where
  "reorderPagesByContent api_key rank pages =
     (if length pages \<le> 1 then Inr pages
      else case getAiClient api_key of
        Inl e \<Rightarrow> Inl e
      | Inr _ \<Rightarrow>
         (case rank (pagesSummary pages) of
            CallRejected \<Rightarrow> Inr (defaultSort pages)
          | NotAnArray \<Rightarrow> Inr (defaultSort pages)
          | NoText \<Rightarrow> Inr pages
          | Ids newOrderIds \<Rightarrow>
              Inr (pushHinted pages newOrderIds @ pushMissing pages newOrderIds)))"

text \<open>The validation the specification describes for a reorder hint over \<open>n\<close> pages:
  the same length as the input and a bijection over \<open>[0, n)\<close>.\<close>

definition spec_valid_hint :: "nat \<Rightarrow> int list \<Rightarrow> bool" where
  "spec_valid_hint n ids \<longleftrightarrow>
     length ids = n \<and> distinct ids \<and> (\<forall>i \<in> set ids. 0 \<le> i \<and> i < int n)"

text \<open>A page of which only the detected page number matters.\<close>

definition numbered_page :: "int option \<Rightarrow> DocxGenerationData" where
  "numbered_page n =
     \<lparr> originalFileName = js ''scan.jpg'',
       analysis = \<lparr> pageNumber = n, blocks = [], hasContinuingSentence = False \<rparr>,
       imageBlob = None, sourceType = image \<rparr>"

section \<open>JavaScript numbers\<close>

text \<open>
  A JavaScript number is an IEEE 754 binary64 value: a real number with a significand of
  53 bits, an infinity, or \<open>NaN\<close>. The sign of zero is not modelled: no operation
  of the sources tells the two zeros apart. \<open>double x\<close> is the number an operation
  returns whose exact result is \<open>x\<close>: the nearest binary64 value, a tie going to the
  even significand, with gradual underflow below \<open>2 ^ (- 1022)\<close> and overflow to
  an infinity from \<open>2 ^ 1024\<close> on.
\<close>

datatype number = Finite real | PosInfinity | NegInfinity | NaN

definition round_even :: "real \<Rightarrow> int" where
  "round_even r =
     (if r - of_int \<lfloor>r\<rfloor> < 1 / 2 then \<lfloor>r\<rfloor>
      else if 1 / 2 < r - of_int \<lfloor>r\<rfloor> then \<lfloor>r\<rfloor> + 1
      else if even \<lfloor>r\<rfloor> then \<lfloor>r\<rfloor> else \<lfloor>r\<rfloor> + 1)"

text \<open>The binary exponent of a positive real: \<open>2 ^ ilog2 x \<le> x < 2 ^ (ilog2 x + 1)\<close>.\<close>

definition ilog2 :: "real \<Rightarrow> int" where
  "ilog2 x = (if 1 \<le> x then bitlen \<lfloor>x\<rfloor> - 1 else - bitlen (\<lceil>1 / x\<rceil> - 1))"

definition pow2 :: "int \<Rightarrow> real" where
  "pow2 e = (if 0 \<le> e then 2 ^ nat e else 1 / 2 ^ nat (- e))"

definition double :: "real \<Rightarrow> number" where
  "double x =
     (if x = 0 then Finite 0
      else
        (let e = max (ilog2 \<bar>x\<bar>) (- 1022);
             ulp = pow2 (e - 52);
             y = of_int (round_even (x / ulp)) * ulp
         in if 2 ^ 1024 \<le> \<bar>y\<bar> then (if 0 < x then PosInfinity else NegInfinity)
            else Finite y))"

text \<open>An integer of a JSON text is parsed to the nearest number. The width or height
  of an image or a canvas is an integer below \<open>2 ^ 31\<close>, which is a number as it is;
  so is its half.\<close>

definition number_of_int :: "int \<Rightarrow> number" where
  "number_of_int k = double (of_int k)"

definition number_of_nat :: "nat \<Rightarrow> number" where
  "number_of_nat n = Finite (real n)"

fun num_neg :: "number \<Rightarrow> number" where
  "num_neg (Finite x) = Finite (- x)"
| "num_neg PosInfinity = NegInfinity"
| "num_neg NegInfinity = PosInfinity"
| "num_neg NaN = NaN"

fun num_add :: "number \<Rightarrow> number \<Rightarrow> number" where
  "num_add (Finite x) (Finite y) = double (x + y)"
| "num_add NaN b = NaN"
| "num_add a NaN = NaN"
| "num_add PosInfinity NegInfinity = NaN"
| "num_add NegInfinity PosInfinity = NaN"
| "num_add PosInfinity b = PosInfinity"
| "num_add a PosInfinity = PosInfinity"
| "num_add NegInfinity b = NegInfinity"
| "num_add a NegInfinity = NegInfinity"

definition num_sub :: "number \<Rightarrow> number \<Rightarrow> number" where
  "num_sub a b = num_add a (num_neg b)"

fun num_mul :: "number \<Rightarrow> number \<Rightarrow> number" where
  "num_mul (Finite x) (Finite y) = double (x * y)"
| "num_mul NaN b = NaN"
| "num_mul a NaN = NaN"
| "num_mul (Finite x) b = (if x = 0 then NaN else if 0 < x then b else num_neg b)"
| "num_mul a (Finite y) = (if y = 0 then NaN else if 0 < y then a else num_neg a)"
| "num_mul PosInfinity b = b"
| "num_mul NegInfinity b = num_neg b"

text \<open>\<open>a / d\<close> for a literal \<open>d\<close> that is finite and not zero.\<close>

fun divide_by :: "number \<Rightarrow> real \<Rightarrow> number" where
  "divide_by (Finite x) d = double (x / d)"
| "divide_by NaN d = NaN"
| "divide_by PosInfinity d = (if 0 < d then PosInfinity else NegInfinity)"
| "divide_by NegInfinity d = (if 0 < d then NegInfinity else PosInfinity)"

text \<open>\<open>Math.max\<close> and \<open>Math.min\<close> of two numbers: \<open>NaN\<close> when either is.\<close>

fun math_max :: "number \<Rightarrow> number \<Rightarrow> number" where
  "math_max (Finite x) (Finite y) = Finite (max x y)"
| "math_max NaN b = NaN"
| "math_max a NaN = NaN"
| "math_max PosInfinity b = PosInfinity"
| "math_max a PosInfinity = PosInfinity"
| "math_max NegInfinity b = b"
| "math_max a NegInfinity = a"

fun math_min :: "number \<Rightarrow> number \<Rightarrow> number" where
  "math_min (Finite x) (Finite y) = Finite (min x y)"
| "math_min NaN b = NaN"
| "math_min a NaN = NaN"
| "math_min NegInfinity b = NegInfinity"
| "math_min a NegInfinity = NegInfinity"
| "math_min PosInfinity b = b"
| "math_min a PosInfinity = a"

text \<open>The comparison \<open>a <= 0\<close>: false of \<open>NaN\<close>.\<close>

fun le_zero :: "number \<Rightarrow> bool" where
  "le_zero (Finite x) = (x \<le> 0)"
| "le_zero NegInfinity = True"
| "le_zero PosInfinity = False"
| "le_zero NaN = False"

section \<open>The 2D canvas\<close>

text \<open>
  A canvas is described by its size, the calls to \<open>translate\<close> and \<open>rotate\<close> made on
  its context before the single \<open>drawImage\<close> call the sources make, and what that call
  paints: the image with the source and the destination rectangle (\<open>x, y, width,
  height\<close>), or nothing. By the canvas specification \<open>drawImage(img, dx, dy)\<close> is
  \<open>drawImage(img, 0, 0, w, h, dx, dy, w, h)\<close> for an image of \<open>w\<close> by \<open>h\<close>
  pixels, and \<open>drawImage\<close> returns without painting when an argument is infinite or
  \<open>NaN\<close> or when the source rectangle has width or height zero.
  \<open>Rotate q\<close> records \<open>ctx.rotate(q * Math.PI)\<close>, the angle taken as the exact multiple
  of \<open>\<pi>\<close>.
\<close>

type_synonym rect = "real \<times> real \<times> real \<times> real"

datatype transform_op = Translate real real | Rotate real

record Canvas =
  canvas_width :: nat
  canvas_height :: nat
  canvas_ops :: "transform_op list"
  drawn :: "(Blob \<times> rect \<times> rect) option"

fun drawImage ::
  "Blob \<Rightarrow> number \<times> number \<times> number \<times> number \<Rightarrow> number \<times> number \<times> number \<times> number
     \<Rightarrow> (Blob \<times> rect \<times> rect) option" where
  "drawImage img (Finite sx, Finite sy, Finite sw, Finite sh)
                 (Finite dx, Finite dy, Finite dw, Finite dh) =
     (if sw = 0 \<or> sh = 0 then None else Some (img, (sx, sy, sw, sh), (dx, dy, dw, dh)))"
| "drawImage img src dst = None"

text \<open>
  The meaning of the recorded calls: \<open>ctx.translate\<close> and \<open>ctx.rotate\<close> multiply the
  current transformation matrix on the right, starting from the identity; a point
  \<open>(x, y)\<close> of user space lands on \<open>(a x + c y + e, b x + d y + f)\<close>.
\<close>

record Matrix =
  m_a :: real
  m_b :: real
  m_c :: real
  m_d :: real
  m_e :: real
  m_f :: real

definition identity_matrix :: Matrix where
  "identity_matrix = \<lparr> m_a = 1, m_b = 0, m_c = 0, m_d = 1, m_e = 0, m_f = 0 \<rparr>"

definition translate :: "real \<Rightarrow> real \<Rightarrow> Matrix \<Rightarrow> Matrix" where
  "translate tx ty m =
     m \<lparr> m_e := m_a m * tx + m_c m * ty + m_e m, m_f := m_b m * tx + m_d m * ty + m_f m \<rparr>"

definition rotate :: "real \<Rightarrow> Matrix \<Rightarrow> Matrix" where
  "rotate angle m =
     m \<lparr> m_a := m_a m * cos angle + m_c m * sin angle,
         m_b := m_b m * cos angle + m_d m * sin angle,
         m_c := m_c m * cos angle - m_a m * sin angle,
         m_d := m_d m * cos angle - m_b m * sin angle \<rparr>"

fun apply_op :: "Matrix \<Rightarrow> transform_op \<Rightarrow> Matrix" where
  "apply_op m (Translate tx ty) = translate tx ty m"
| "apply_op m (Rotate q) = rotate (q * pi) m"

definition canvas_transform :: "Canvas \<Rightarrow> Matrix" where
  "canvas_transform c = foldl apply_op identity_matrix (canvas_ops c)"

definition transform_point :: "Matrix \<Rightarrow> real \<times> real \<Rightarrow> real \<times> real" where
  "transform_point m p =
     (m_a m * fst p + m_c m * snd p + m_e m, m_b m * fst p + m_d m * snd p + m_f m)"

text \<open>Assigning a number to \<open>canvas.width\<close> stores 0 for \<open>NaN\<close> and the infinities
  and the integer part of a positive number; the sources assign nothing negative and
  nothing beyond the side of an image.\<close>

fun to_dimension :: "number \<Rightarrow> nat" where
  "to_dimension (Finite x) = nat \<lfloor>x\<rfloor>"
| "to_dimension a = 0"

text \<open>
  The browser as the sources meet it: \<open>decode\<close> gives the width and height of the
  image in a blob, or \<open>None\<close> when it does not load; \<open>ctx\<close> tells whether
  \<open>getContext('2d')\<close> returns a context; \<open>encode\<close> is the encoder behind
  \<open>canvas.toBlob\<close> for a MIME type, \<open>None\<close> when it fails. \<open>toBlob\<close> hands over
  \<open>null\<close> for a canvas without pixels.
\<close>

type_synonym decoder = "Blob \<Rightarrow> (nat \<times> nat) option"
type_synonym encoder = "jsstring \<Rightarrow> Canvas \<Rightarrow> 8 word list option"

definition toBlob :: "encoder \<Rightarrow> jsstring \<Rightarrow> Canvas \<Rightarrow> 8 word list option" where
  "toBlob encode mime c =
     (if canvas_width c = 0 \<or> canvas_height c = 0 then None else encode mime c)"

section \<open>pdfUtils.ts: cropping a region\<close>

definition padding :: number where
  "padding = Finite 5"

definition pixelX :: "int \<Rightarrow> nat \<Rightarrow> number" where
  "pixelX xmin w = num_mul (divide_by (number_of_int xmin) 1000) (number_of_nat w)"

definition pixelY :: "int \<Rightarrow> nat \<Rightarrow> number" where
  "pixelY ymin h = num_mul (divide_by (number_of_int ymin) 1000) (number_of_nat h)"

definition pixelW :: "int \<Rightarrow> int \<Rightarrow> nat \<Rightarrow> number" where
  "pixelW xmin xmax w =
     num_mul (divide_by (num_sub (number_of_int xmax) (number_of_int xmin)) 1000)
             (number_of_nat w)"

definition pixelH :: "int \<Rightarrow> int \<Rightarrow> nat \<Rightarrow> number" where
  "pixelH ymin ymax h =
     num_mul (divide_by (num_sub (number_of_int ymax) (number_of_int ymin)) 1000)
             (number_of_nat h)"

definition finalX :: "int \<Rightarrow> nat \<Rightarrow> number" where
  "finalX xmin w = math_max (Finite 0) (num_sub (pixelX xmin w) padding)"

definition finalY :: "int \<Rightarrow> nat \<Rightarrow> number" where
  "finalY ymin h = math_max (Finite 0) (num_sub (pixelY ymin h) padding)"

definition finalW :: "int \<Rightarrow> int \<Rightarrow> nat \<Rightarrow> number" where
  "finalW xmin xmax w =
     math_min (num_sub (number_of_nat w) (finalX xmin w))
              (num_add (pixelW xmin xmax w) (num_mul padding (Finite 2)))"

definition finalH :: "int \<Rightarrow> int \<Rightarrow> nat \<Rightarrow> number" where
  "finalH ymin ymax h =
     math_min (num_sub (number_of_nat h) (finalY ymin h))
              (num_add (pixelH ymin ymax h) (num_mul padding (Finite 2)))"

text \<open>The canvas of the fallback branch: the size of the image, \<open>drawImage(img, 0, 0)\<close>.\<close>

definition wholeImage :: "Blob \<Rightarrow> nat \<Rightarrow> nat \<Rightarrow> Canvas" where
  "wholeImage img w h =
     \<lparr> canvas_width = w, canvas_height = h, canvas_ops = [],
       drawn = drawImage img (Finite 0, Finite 0, number_of_nat w, number_of_nat h)
                             (Finite 0, Finite 0, number_of_nat w, number_of_nat h) \<rparr>"

definition cropCanvas :: "Blob \<Rightarrow> nat \<Rightarrow> nat \<Rightarrow> int \<Rightarrow> int \<Rightarrow> int \<Rightarrow> int \<Rightarrow> Canvas" where
  "cropCanvas img w h ymin xmin ymax xmax =
     (if le_zero (finalW xmin xmax w) \<or> le_zero (finalH ymin ymax h)
      then wholeImage img w h
      else \<lparr> canvas_width = to_dimension (finalW xmin xmax w),
             canvas_height = to_dimension (finalH ymin ymax h),
             canvas_ops = [],
             drawn = drawImage img
                       (finalX xmin w, finalY ymin h, finalW xmin xmax w, finalH ymin ymax h)
                       (Finite 0, Finite 0, finalW xmin xmax w, finalH ymin ymax h) \<rparr>)"

definition cropImageFromBlob ::
  "decoder \<Rightarrow> bool \<Rightarrow> encoder \<Rightarrow> Blob \<Rightarrow> int list option \<Rightarrow> service_error + Blob" where
  "cropImageFromBlob decode ctx encode sourceBlob box =
     (case box of
        None \<Rightarrow> Inr sourceBlob
      | Some b \<Rightarrow>
          if length b < 4 then Inr sourceBlob
          else
            (let ymin = b ! 0; xmin = b ! 1; ymax = b ! 2; xmax = b ! 3 in
             case decode sourceBlob of
               None \<Rightarrow> Inl ImageLoadFailed
             | Some (w, h) \<Rightarrow>
                 if \<not> ctx then Inl NoCanvasContext
                 else
                   (case toBlob encode (js ''image/png'')
                           (cropCanvas sourceBlob w h ymin xmin ymax xmax) of
                      None \<Rightarrow> Inl CanvasToBlobFailed
                    | Some bytes \<Rightarrow> Inr \<lparr> blob_type = js ''image/png'', blob_bytes = bytes \<rparr>)))"

section \<open>geminiService.ts: rotating an image\<close>

definition rotationCanvas :: "Blob \<Rightarrow> nat \<Rightarrow> nat \<Rightarrow> int \<Rightarrow> Canvas" where
  "rotationCanvas img w h rotationDegrees =
     (let cw = (if rotationDegrees = 90 \<or> rotationDegrees = 270 then h else w);
          ch = (if rotationDegrees = 90 \<or> rotationDegrees = 270 then w else h)
      in \<lparr> canvas_width = cw, canvas_height = ch,
           canvas_ops =
             [Translate (real cw / 2) (real ch / 2), Rotate (real_of_int rotationDegrees / 180)],
           drawn = drawImage img (Finite 0, Finite 0, number_of_nat w, number_of_nat h)
                     (Finite (- real w / 2), Finite (- real h / 2),
                      number_of_nat w, number_of_nat h) \<rparr>)"

text \<open>The new file has the name and the type of the old one and the encoded bytes; a
  file made by \<open>new File\<close> has an empty relative path.\<close>

definition processImageWithRotation ::
  "decoder \<Rightarrow> bool \<Rightarrow> encoder \<Rightarrow> File \<Rightarrow> int \<Rightarrow> service_error + File" where
  "processImageWithRotation decode ctx encode file rotationDegrees =
     (if rotationDegrees = 0 then Inr file
      else
        (case decode (Blob.truncate file) of
           None \<Rightarrow> Inl ImageLoadFailed
         | Some (w, h) \<Rightarrow>
             if \<not> ctx then Inl NoCanvasContext
             else
               (case toBlob encode (blob_type file)
                       (rotationCanvas (Blob.truncate file) w h rotationDegrees) of
                  None \<Rightarrow> Inl CanvasToBlobFailed
                | Some bytes \<Rightarrow>
                    Inr \<lparr> blob_type = blob_type file, blob_bytes = bytes,
                          file_name = file_name file, webkitRelativePath = [] \<rparr>)))"

text \<open>The centre of a rectangle, and the centre of the canvas.\<close>

definition rect_centre :: "rect \<Rightarrow> real \<times> real" where
  "rect_centre r = (case r of (x, y, w, h) \<Rightarrow> (x + w / 2, y + h / 2))"

definition canvas_centre :: "Canvas \<Rightarrow> real \<times> real" where
  "canvas_centre c = (real (canvas_width c) / 2, real (canvas_height c) / 2)"

text \<open>Fixtures for the examples: a JPEG blob, a file, and an encoder that writes the
  canvas size.\<close>

definition jpeg_blob :: Blob where
  "jpeg_blob = \<lparr> blob_type = js ''image/jpeg'', blob_bytes = [0xFF, 0xD8, 0xFF] \<rparr>"

definition size_encoder :: encoder where
  "size_encoder mime c = Some [of_nat (canvas_width c), of_nat (canvas_height c)]"

definition scan_file :: File where
  "scan_file = \<lparr> blob_type = js ''image/jpeg'', blob_bytes = [0xFF, 0xD8, 0xFF],
                 file_name = js ''scan.jpg'', webkitRelativePath = js ''book/scan.jpg'' \<rparr>"

section \<open>pdfUtils.ts: rasterizing a PDF\<close>

text \<open>
  What one iteration of the page loop comes to, for the page rendered at a given
  viewport scale: \<open>getPage\<close> or \<open>render\<close> throws; the canvas gives no 2D context;
  \<open>toBlob\<close> hands over \<open>null\<close>; or the page is rendered into a blob. A loaded
  document is the list of its pages, \<open>numPages\<close> its length; loading it can fail.
\<close>

datatype page_outcome = RenderThrows | NoContext | NullBlob | Rendered Blob

type_synonym pdf_page = "real \<Rightarrow> page_outcome"
type_synonym pdf_loader = "File \<Rightarrow> pdf_page list option"

datatype console_entry = ErrorRenderingPage nat

fun renderPages ::
  "nat \<Rightarrow> pdf_page list \<Rightarrow> Blob list \<Rightarrow> console_entry list \<Rightarrow> Blob list \<times> console_entry list" where
  "renderPages i [] pageBlobs console = (pageBlobs, console)"
| "renderPages i (page # rest) pageBlobs console =
     (case page 2.0 of
        RenderThrows \<Rightarrow> renderPages (i + 1) rest pageBlobs (console @ [ErrorRenderingPage i])
      | NoContext \<Rightarrow> renderPages (i + 1) rest pageBlobs console
      | NullBlob \<Rightarrow> renderPages (i + 1) rest pageBlobs console
      | Rendered blob \<Rightarrow> renderPages (i + 1) rest (pageBlobs @ [blob]) console)"

definition convertPdfToImages ::
  "pdf_loader \<Rightarrow> File \<Rightarrow> (service_error + Blob list) \<times> console_entry list" where
  "convertPdfToImages load file =
     (case load file of
        None \<Rightarrow> (Inl PdfLoadFailed, [])
      | Some doc \<Rightarrow>
          (case renderPages 1 doc [] [] of
             (pageBlobs, console) \<Rightarrow>
               (if length pageBlobs = 0 then Inl NoPdfPages else Inr pageBlobs, console)))"

text \<open>The rasters of the pages that render at scale 2, in page order; the numbers of the
  pages whose rendering throws; and the rasters a file yields, none when it does not load.\<close>

definition rendered_pages :: "pdf_page list \<Rightarrow> Blob list" where
  "rendered_pages doc = concat (map (\<lambda>page. case page 2 of Rendered blob \<Rightarrow> [blob] | _ \<Rightarrow> []) doc)"

definition throwing_pages :: "pdf_page list \<Rightarrow> nat list" where
  "throwing_pages doc = map Suc (filter (\<lambda>i. (doc ! i) 2 = RenderThrows) [0..<length doc])"

definition usable_pages :: "pdf_loader \<Rightarrow> File \<Rightarrow> Blob list" where
  "usable_pages load file = (case load file of None \<Rightarrow> [] | Some doc \<Rightarrow> rendered_pages doc)"

section \<open>Building the text for the summary\<close>

definition fullText :: "DocxGenerationData list \<Rightarrow> jsstring" where
  "fullText orderedPages =
     join [0x0A, 0x0A]
       (map (\<lambda>p. join [0x20]
                    (map block_text
                       (filter (\<lambda>b. block_kind b \<noteq> image_crop \<and> block_kind b \<noteq> table_crop)
                               (blocks (analysis p)))))
            orderedPages)"

text \<open>\<open>sanitizeText\<close> removes the code units of \<open>[\x00-\x08\x0B\x0C\x0E-\x1F]\<close>
  and trims white space and line terminators from both ends.\<close>

definition is_control :: "jschar \<Rightarrow> bool" where
  "is_control c \<longleftrightarrow> c \<le> 0x08 \<or> c = 0x0B \<or> c = 0x0C \<or> (0x0E \<le> c \<and> c \<le> 0x1F)"

definition is_space :: "jschar \<Rightarrow> bool" where
  "is_space c \<longleftrightarrow>
     c \<in> {0x09, 0x0A, 0x0B, 0x0C, 0x0D, 0x20, 0xA0, 0x1680, 0x2028, 0x2029, 0x202F,
           0x205F, 0x3000, 0xFEFF} \<or> (0x2000 \<le> c \<and> c \<le> 0x200A)"

definition trim :: "jsstring \<Rightarrow> jsstring" where
  "trim s = rev (dropWhile is_space (rev (dropWhile is_space s)))"

definition sanitizeText :: "jsstring \<Rightarrow> jsstring" where
  "sanitizeText text = (if text = [] then [] else trim (filter (\<lambda>c. \<not> is_control c) text))"

definition sanitizedInput :: "jsstring \<Rightarrow> jsstring" where
  "sanitizedInput text = sanitizeText (substring text 0 60000)"

text \<open>
  \<open>summarize\<close> stands for the rest of \<open>generateSummary\<close>: the call with the prompt
  built around the sanitized input, and the cleaning of the answer (or one of the two
  fixed messages). The client is created before the \<open>try\<close> block, so a missing API key
  is thrown to the caller. The prompt does not mention \<open>language\<close>.
\<close>

definition generateSummary ::
  "bool \<Rightarrow> (jsstring \<Rightarrow> jsstring) \<Rightarrow> jsstring \<Rightarrow> jsstring \<Rightarrow> service_error + jsstring" where
  "generateSummary api_key summarize text language =
     (case getAiClient api_key of
        Inl e \<Rightarrow> Inl e
      | Inr _ \<Rightarrow> Inr (summarize (sanitizedInput text)))"

text \<open>The text of the summary in the words of the specification: the text of the blocks
  of every type but \<open>image_crop\<close> and \<open>table_crop\<close>, joined by single spaces within a
  page and by a blank line between pages.\<close>

fun spec_narrative :: "block_type \<Rightarrow> bool" where
  "spec_narrative image_crop = False"
| "spec_narrative table_crop = False"
| "spec_narrative heading = True"
| "spec_narrative subheading = True"
| "spec_narrative author = True"
| "spec_narrative paragraph_block = True"
| "spec_narrative image_description = True"
| "spec_narrative table_row = True"
| "spec_narrative formula_crop = True"

definition spec_page_text :: "DocxGenerationData \<Rightarrow> jsstring" where
  "spec_page_text p =
     join (js '' '') (map block_text (filter (\<lambda>b. spec_narrative (block_kind b)) (blocks (analysis p))))"

definition spec_summary_text :: "DocxGenerationData list \<Rightarrow> jsstring" where
  "spec_summary_text pages = join [0x0A, 0x0A] (map spec_page_text pages)"

definition text_block :: "block_type \<Rightarrow> string \<Rightarrow> PageContentBlock" where
  "text_block k t = \<lparr> block_kind = k, block_text = js t, isTranslated = None, boundingBox = None \<rparr>"

definition page_of_blocks :: "PageContentBlock list \<Rightarrow> DocxGenerationData" where
  "page_of_blocks bs =
     \<lparr> originalFileName = js ''scan.jpg'',
       analysis = \<lparr> pageNumber = None, blocks = bs, hasContinuingSentence = False \<rparr>,
       imageBlob = None, sourceType = image \<rparr>"

text \<open>Fixtures for the examples.\<close>

definition page_blob :: "8 word \<Rightarrow> Blob" where
  "page_blob n = \<lparr> blob_type = js ''image/jpeg'', blob_bytes = [n] \<rparr>"

definition sample_pdf :: "pdf_page list" where
  "sample_pdf =
     [\<lambda>scale. if scale = 2 then Rendered (page_blob 1) else NullBlob,
      \<lambda>scale. RenderThrows,
      \<lambda>scale. NoContext,
      \<lambda>scale. Rendered (page_blob 4)]"

definition sample_pages :: "DocxGenerationData list" where
  "sample_pages =
     [page_of_blocks [text_block paragraph_block ''ab'', text_block image_crop ''i'',
                      text_block formula_crop ''f'', text_block table_crop ''t''],
      page_of_blocks [text_block heading ''h'']]"

section \<open>sortUtils.ts and the ingestion of the picked files\<close>

text \<open>
  The two regular expressions carry the flag \<open>i\<close> and end in \<open>$\<close>: the name must
  end in one of the extensions, compared without regard to the case of the ASCII
  letters (without the flag \<open>u\<close> no other code unit matches an ASCII letter).
\<close>

definition to_lower :: "jschar \<Rightarrow> jschar" where
  "to_lower c = (if 0x41 \<le> c \<and> c \<le> 0x5A then c + 0x20 else c)"

definition starts_with :: "jsstring \<Rightarrow> jsstring \<Rightarrow> bool" where
  "starts_with s p \<longleftrightarrow> take (length p) s = p"

definition ends_with_ci :: "jsstring \<Rightarrow> jsstring \<Rightarrow> bool" where
  "ends_with_ci s ext \<longleftrightarrow>
     length ext \<le> length s \<and> map to_lower (drop (length s - length ext) s) = ext"

definition isImage :: "File \<Rightarrow> bool" where
  "isImage file \<longleftrightarrow>
     starts_with (blob_type file) (js ''image/'') \<or>
     list_ex (ends_with_ci (file_name file))
       [js ''.jpg'', js ''.jpeg'', js ''.png'', js ''.tif'', js ''.tiff'', js ''.bmp'']"

definition isPdf :: "File \<Rightarrow> bool" where
  "isPdf file \<longleftrightarrow>
     blob_type file = js ''application/pdf'' \<or> ends_with_ci (file_name file) (js ''.pdf'')"

text \<open>\<open>Intl.Collator\<close> depends on the locale of the browser; its \<open>compare\<close> is a
  parameter. The result of \<open>naturalSort\<close> is a new array.\<close>

definition naturalSort ::
  "(jsstring \<Rightarrow> jsstring \<Rightarrow> int) \<Rightarrow> 'a list \<Rightarrow> ('a \<Rightarrow> jsstring) \<Rightarrow> 'a list" where
  "naturalSort collate array keySelector =
     array_sort (\<lambda>a b. collate (keySelector a) (keySelector b)) array"

text \<open>\<open>s.split(c)\<close> for a separator of one code unit: never the empty array.\<close>

fun split_on :: "'a \<Rightarrow> 'a list \<Rightarrow> 'a list list" where
  "split_on c [] = [[]]"
| "split_on c (x # xs) =
     (if x = c then [] # split_on c xs
      else (case split_on c xs of
              [] \<Rightarrow> [[x]]
            | part # parts \<Rightarrow> (x # part) # parts))"

text \<open>A file size in a template literal: the decimal digits of the number.\<close>

fun decimal :: "nat \<Rightarrow> jsstring" where
  "decimal n = (if n < 10 then [of_nat (48 + n)] else decimal (n div 10) @ [of_nat (48 + n mod 10)])"

declare decimal.simps [simp del]

definition folderOf :: "File \<Rightarrow> jsstring" where
  "folderOf file =
     (let pathParts = split_on 0x2F (webkitRelativePath file)
      in if length pathParts > 1 then pathParts ! (length pathParts - 2) else js ''Root'')"

definition newFileItem :: "jsstring \<Rightarrow> File \<Rightarrow> FileItem" where
  "newFileItem folder file =
     \<lparr> item_id = folder @ js ''_'' @ file_name file @ js ''_'' @ decimal (file_size file),
       item_name = file_name file,
       item_path = webkitRelativePath file,
       item_file = file,
       item_kind = (if isPdf file then pdf else image),
       selected = True,
       rotation = 0 \<rparr>"

text \<open>
  \<open>groups\<close> is a plain object used as a dictionary: its own properties in the order
  of their creation. A folder called like a property of \<open>Object.prototype\<close> finds that
  inherited value under \<open>groups[folderName]\<close>, which is truthy and has no \<open>push\<close>:
  the call throws a \<open>TypeError\<close> and the handler ends without a new folder list.
\<close>

type_synonym groups = "(jsstring \<times> FileItem list) list"

datatype type_error = PushIsNotAFunction

definition object_prototype_keys :: "jsstring list" where
  "object_prototype_keys =
     [js ''constructor'', js ''__proto__'', js ''hasOwnProperty'', js ''isPrototypeOf'',
      js ''propertyIsEnumerable'', js ''toLocaleString'', js ''toString'', js ''valueOf'',
      js ''__defineGetter__'', js ''__defineSetter__'', js ''__lookupGetter__'',
      js ''__lookupSetter__'']"

definition push_item :: "groups \<Rightarrow> jsstring \<Rightarrow> FileItem \<Rightarrow> groups" where
  "push_item groups k item =
     (if k \<in> set (map fst groups)
      then map (\<lambda>(k', items). if k' = k then (k', items @ [item]) else (k', items)) groups
      else groups @ [(k, [item])])"

fun groupFiles :: "File list \<Rightarrow> groups \<Rightarrow> type_error + groups" where
  "groupFiles [] groups = Inr groups"
| "groupFiles (file # rest) groups =
     (if isImage file \<or> isPdf file
      then (let folderName = folderOf file
            in if folderName \<in> set object_prototype_keys then Inl PushIsNotAFunction
               else groupFiles rest (push_item groups folderName (newFileItem folderName file)))
      else groupFiles rest groups)"

text \<open>\<open>Object.entries\<close> lists the keys that are array indices first, in ascending
  numeric order, and then the other keys in the order of their creation.\<close>

definition is_digit :: "jschar \<Rightarrow> bool" where
  "is_digit c \<longleftrightarrow> 0x30 \<le> c \<and> c \<le> 0x39"

definition digits_value :: "jsstring \<Rightarrow> nat" where
  "digits_value s = foldl (\<lambda>a c. 10 * a + (unat c - 48)) 0 s"

definition is_array_index :: "jsstring \<Rightarrow> bool" where
  "is_array_index s \<longleftrightarrow>
     s \<noteq> [] \<and> list_all is_digit s \<and> (s = [0x30] \<or> hd s \<noteq> 0x30) \<and>
     digits_value s < 2 ^ 32 - 1"

definition object_entries :: "groups \<Rightarrow> groups" where
  "object_entries groups =
     sort_key (\<lambda>(k, v). digits_value k) (filter (\<lambda>(k, v). is_array_index k) groups)
     @ filter (\<lambda>(k, v). \<not> is_array_index k) groups"

definition handleFileInputChange ::
  "(jsstring \<Rightarrow> jsstring \<Rightarrow> int) \<Rightarrow> FolderGroup list \<Rightarrow> File list
     \<Rightarrow> type_error + FolderGroup list" where
  "handleFileInputChange collate folders allFiles =
     (if length allFiles > 0
      then (case groupFiles allFiles [] of
              Inl e \<Rightarrow> Inl e
            | Inr groups \<Rightarrow>
                Inr (map (\<lambda>(name, fs).
                            \<lparr> folderName = name,
                              files = naturalSort collate fs item_name,
                              status = pending,
                              resultDocBlob = None \<rparr>)
                         (object_entries groups)))
      else Inr folders)"

text \<open>A picked file of three bytes, for the examples.\<close>

definition picked_file :: "string \<Rightarrow> string \<Rightarrow> string \<Rightarrow> File" where
  "picked_file mime path name =
     \<lparr> blob_type = js mime, blob_bytes = [0xFF, 0xD8, 0xFF],
       file_name = js name, webkitRelativePath = js path \<rparr>"

text \<open>The items filed under a key, and the files the ingestion accepts.\<close>

definition items_of :: "groups \<Rightarrow> jsstring \<Rightarrow> FileItem list" where
  "items_of groups k = (case map_of groups k of None \<Rightarrow> [] | Some v \<Rightarrow> v)"

definition accepted :: "File \<Rightarrow> bool" where
  "accepted file \<longleftrightarrow> isImage file \<or> isPdf file"

section \<open>App.tsx: processing the folders\<close>
















text \<open>The transitions the specification allows for the status of a folder; a status
  that stays as it is takes none.\<close>

fun spec_forward :: "folder_status \<Rightarrow> folder_status \<Rightarrow> bool" where
  "spec_forward pending processing = True"
| "spec_forward processing completed = True"
| "spec_forward processing error = True"
| "spec_forward s t = (s = t)"














section \<open>Properties of the reordering\<close>

lemma insert_by_key: "insert_by (\<lambda>a b. f a - f b) x ys = insort_key f x ys"
  for f :: "'a \<Rightarrow> int"
  by (induction ys) auto

lemma array_sort_key: "array_sort (\<lambda>a b. f a - f b) xs = sort_key f xs"
  for f :: "'a \<Rightarrow> int"
  by (induction xs) (auto simp: array_sort_def insert_by_key)

lemma defaultSort_sort_key: "defaultSort pages = sort_key pageNumberOr999 pages"
  by (simp add: defaultSort_def array_sort_key)

lemma pushHinted_in_range:
  "\<forall>i \<in> set ids. 0 \<le> i \<and> i < int (length pages) \<Longrightarrow>
   pushHinted pages ids = map (\<lambda>i. pages ! nat i) ids"
  by (induction ids) (auto simp: pushHinted_def)

lemma pushMissing_filter:
  "pushMissing pages ids = map ((!) pages) (filter (\<lambda>idx. int idx \<notin> set ids) [0..<length pages])"
  unfolding pushMissing_def enumerate_eq_zip
  by (induction pages rule: rev_induct) (auto simp: nth_append)

lemma valid_hint_covers:
  assumes "spec_valid_hint n ids"
  shows "set ids = int ` {..<n}"
proof -
  have sub: "set ids \<subseteq> int ` {..<n}"
  proof
    fix x assume "x \<in> set ids"
    with assms have "0 \<le> x" "x < int n"
      by (auto simp: spec_valid_hint_def)
    then have "x = int (nat x)" "nat x < n" by auto
    then show "x \<in> int ` {..<n}" by blast
  qed
  from assms have "card (set ids) = n"
    by (simp add: spec_valid_hint_def distinct_card)
  moreover have "card (int ` {..<n}) = n"
    by (simp add: card_image)
  ultimately show ?thesis
    using sub by (simp add: card_subset_eq)
qed

lemma pushMissing_valid:
  assumes "spec_valid_hint (length pages) ids"
  shows "pushMissing pages ids = []"
  using valid_hint_covers [OF assms] by (auto simp: pushMissing_filter filter_empty_conv)

lemma set_merge_covers: "set pages \<subseteq> set (pushHinted pages ids @ pushMissing pages ids)"
proof
  fix p assume "p \<in> set pages"
  then obtain i where i: "i < length pages" "pages ! i = p"
    by (auto simp: in_set_conv_nth)
  show "p \<in> set (pushHinted pages ids @ pushMissing pages ids)"
  proof (cases "int i \<in> set ids")
    case True
    with i have "p \<in> set (pushHinted pages ids)"
      by (auto simp: pushHinted_def intro!: bexI [where x = "int i"])
    then show ?thesis by simp
  next
    case False
    with i have "p \<in> set (pushMissing pages ids)"
      by (auto simp: pushMissing_filter)
    then show ?thesis by simp
  qed
qed



lemma pushHinted_filter:
  "pushHinted pages ids =
     map (\<lambda>i. pages ! nat i) (filter (\<lambda>i. 0 \<le> i \<and> i < int (length pages)) ids)"
  by (induction ids) (auto simp: pushHinted_def)

lemma reorder_Ids:
  "2 \<le> length pages \<Longrightarrow> rank (pagesSummary pages) = Ids ids \<Longrightarrow>
   reorderPagesByContent True rank pages = Inr (pushHinted pages ids @ pushMissing pages ids)"
  by (simp add: reorderPagesByContent_def getAiClient_def)

lemma sort_key_short: "length xs \<le> 1 \<Longrightarrow> sort_key f xs = xs"
  by (cases xs) auto

lemma reorder_failed:
  "rank (pagesSummary pages) = CallRejected \<or> rank (pagesSummary pages) = NotAnArray \<Longrightarrow>
   reorderPagesByContent True rank pages = Inr (sort_key pageNumberOr999 pages)"
  by (auto simp: reorderPagesByContent_def getAiClient_def defaultSort_sort_key sort_key_short)

text \<open>
  Claim C1, as the code has it. For two or more pages and a ranking response that is an
  array of integers, the pages at the in-range entries of the hint are emitted in hint
  order, followed by the pages whose index the hint does not contain; the hint is never
  rejected in favour of the fallback sort. When the hint has the length of the input
  and is a bijection over \<open>[0, n)\<close>, this is exactly the pages reordered by the
  permutation.
\<close>

theorem reorder_valid_hint_permutes:
  assumes "2 \<le> length pages" and "rank (pagesSummary pages) = Ids ids"
  shows "reorderPagesByContent True rank pages
           = Inr (pushHinted pages ids @ pushMissing pages ids) \<and>
         (spec_valid_hint (length pages) ids \<longrightarrow>
            reorderPagesByContent True rank pages = Inr (map (\<lambda>i. pages ! nat i) ids))"
proof (intro conjI impI)
  show merged: "reorderPagesByContent True rank pages
           = Inr (pushHinted pages ids @ pushMissing pages ids)"
    using assms by (rule reorder_Ids)
  assume v: "spec_valid_hint (length pages) ids"
  then have "\<forall>i \<in> set ids. 0 \<le> i \<and> i < int (length pages)"
    by (simp add: spec_valid_hint_def)
  then have "pushHinted pages ids = map (\<lambda>i. pages ! nat i) ids"
    by (rule pushHinted_in_range)
  with merged pushMissing_valid [OF v]
  show "reorderPagesByContent True rank pages = Inr (map (\<lambda>i. pages ! nat i) ids)"
    by simp
qed

lemmas eval_simps = reorderPagesByContent_def getAiClient_def pushHinted_def pushMissing_def
  defaultSort_def array_sort_def pageNumberOr999_def numbered_page_def enumerate_eq_zip
  spec_valid_hint_def

theorem reorder_valid_hint_permutes_witness:
  "2 \<le> length [numbered_page (Some 3), numbered_page (Some 1), numbered_page (Some 2)] \<and>
   spec_valid_hint 3 [1, 2, 0] \<and>
   reorderPagesByContent True (\<lambda>_. Ids [1, 2, 0])
       [numbered_page (Some 3), numbered_page (Some 1), numbered_page (Some 2)]
     = Inr [numbered_page (Some 1), numbered_page (Some 2), numbered_page (Some 3)]"
  using reorder_valid_hint_permutes
    [of "[numbered_page (Some 3), numbered_page (Some 1), numbered_page (Some 2)]"
        "\<lambda>_. Ids [1, 2, 0]" "[1, 2, 0]"]
  by (simp add: eval_simps)

text \<open>
  The hint \<open>[0, 0, 1]\<close> over three pages holds a duplicate, so the validation of the
  specification rejects it; the code returns page 0 twice, then pages 1 and 2, which is
  not the fallback sort.
\<close>

theorem reorder_invalid_hint_counterexample:
  "\<not> spec_valid_hint 3 [0, 0, 1] \<and>
   reorderPagesByContent True (\<lambda>_. Ids [0, 0, 1])
       [numbered_page (Some 3), numbered_page (Some 1), numbered_page (Some 2)]
     = Inr [numbered_page (Some 3), numbered_page (Some 3), numbered_page (Some 1),
            numbered_page (Some 2)] \<and>
   reorderPagesByContent True (\<lambda>_. Ids [0, 0, 1])
       [numbered_page (Some 3), numbered_page (Some 1), numbered_page (Some 2)]
     \<noteq> Inr (defaultSort
            [numbered_page (Some 3), numbered_page (Some 1), numbered_page (Some 2)])"
  by (simp add: eval_simps)




text \<open>
  Claim C10. Whatever the ranking collaborator answers, the result holds every input
  page; for two or more pages and an answer that is an array of integers, the result
  is the pages at the in-range entries of the hint, in hint order, followed by the
  pages at the indices the hint does not contain, in original order.
\<close>

theorem reorder_keeps_every_page:
  "\<exists>out. reorderPagesByContent True rank pages = Inr out \<and> set pages \<subseteq> set out \<and>
     (\<forall>ids. 2 \<le> length pages \<and> rank (pagesSummary pages) = Ids ids \<longrightarrow>
        out = map (\<lambda>i. pages ! nat i) (filter (\<lambda>i. 0 \<le> i \<and> i < int (length pages)) ids)
              @ map ((!) pages) (filter (\<lambda>idx. int idx \<notin> set ids) [0..<length pages]))"
proof (cases "length pages \<le> 1")
  case True
  then show ?thesis by (simp add: reorderPagesByContent_def)
next
  case False
  then have n: "2 \<le> length pages" by simp
  show ?thesis
  proof (cases "rank (pagesSummary pages)")
    case (Ids ids)
    with n have "reorderPagesByContent True rank pages
        = Inr (pushHinted pages ids @ pushMissing pages ids)"
      by (simp add: reorder_Ids)
    moreover have "set pages \<subseteq> set (pushHinted pages ids @ pushMissing pages ids)"
      by (rule set_merge_covers)
    ultimately show ?thesis
      using Ids by (simp add: pushHinted_filter pushMissing_filter)
  next
    case NoText
    with n show ?thesis by (simp add: reorderPagesByContent_def getAiClient_def)
  next
    case CallRejected
    then show ?thesis using reorder_failed [of rank pages] by simp
  next
    case NotAnArray
    then show ?thesis using reorder_failed [of rank pages] by simp
  qed
qed

theorem reorder_keeps_every_page_witness:
  "2 \<le> length [numbered_page (Some 3), numbered_page (Some 1), numbered_page (Some 2)] \<and>
   (\<exists>out. reorderPagesByContent True (\<lambda>_. Ids [2, 7, 2, - 1])
              [numbered_page (Some 3), numbered_page (Some 1), numbered_page (Some 2)]
            = Inr out \<and>
          out = [numbered_page (Some 2), numbered_page (Some 2), numbered_page (Some 3),
                 numbered_page (Some 1)])"
  using reorder_keeps_every_page
    [of "\<lambda>_. Ids [2, 7, 2, - 1]"
        "[numbered_page (Some 3), numbered_page (Some 1), numbered_page (Some 2)]"]
  by (simp add: eval_simps)

section \<open>Properties of cropping and rotation\<close>

text \<open>Rounding is exact on the integers below \<open>2 ^ 53\<close>; the other roundings the
  examples meet are evaluated one by one.\<close>

lemma round_even_of_int: "round_even (of_int m) = m"
  by (simp add: round_even_def)

lemma double_of_int:
  assumes "\<bar>k\<bar> < 2 ^ 53"
  shows "double (of_int k) = Finite (of_int k)"
proof (cases "k = 0")
  case True
  then show ?thesis by (simp add: double_def)
next
  case False
  define a where "a = \<bar>k\<bar>"
  define n where "n = nat (53 - bitlen a)"
  from False have pos: "0 < a" by (simp add: a_def)
  then have b1: "1 \<le> bitlen a"
    using bitlen_eq_zero_iff [of a] bitlen_nonneg [of a] by linarith
  from assms have "a < 2 ^ 53" by (simp add: a_def)
  then have b2: "bitlen a \<le> 53"
    by (simp add: bitlen_le_iff_power)
  have abs_k: "\<bar>real_of_int k\<bar> = real_of_int a"
    by (simp add: a_def)
  have "1 \<le> real_of_int a"
    using pos by simp
  then have "ilog2 (real_of_int a) = bitlen a - 1"
    by (simp add: ilog2_def)
  then have e: "ilog2 \<bar>real_of_int k\<bar> = bitlen a - 1"
    by (simp only: abs_k)
  have m: "max (bitlen a - 1) (- 1022) = bitlen a - 1"
    using b1 by simp
  have u: "pow2 (bitlen a - 1 - 52) = 1 / 2 ^ n"
    using b2 by (auto simp: pow2_def n_def)
  have q: "real_of_int k / (1 / 2 ^ n) = of_int (k * 2 ^ n)"
    by simp
  have y: "of_int (round_even (real_of_int k / (1 / 2 ^ n))) * (1 / 2 ^ n) = real_of_int k"
    unfolding q round_even_of_int by simp
  have small: "\<not> 2 ^ 1024 \<le> \<bar>real_of_int k\<bar>"
  proof -
    have "\<bar>real_of_int k\<bar> < 2 ^ 53"
      using assms by (metis of_int_abs of_int_less_numeral_power_cancel_iff)
    also have "\<dots> \<le> (2::real) ^ 1024"
      by (rule power_increasing) simp_all
    finally show ?thesis by (simp only: not_le)
  qed
  have nz: "real_of_int k \<noteq> 0"
    using False by simp
  have "double (real_of_int k) =
      (let e = max (ilog2 \<bar>real_of_int k\<bar>) (- 1022);
           ulp = pow2 (e - 52);
           y = of_int (round_even (real_of_int k / ulp)) * ulp
       in if 2 ^ 1024 \<le> \<bar>y\<bar>
          then (if 0 < real_of_int k then PosInfinity else NegInfinity)
          else Finite y)"
    by (simp only: double_def nz if_False)
  also have "\<dots> = (if 2 ^ 1024 \<le> \<bar>real_of_int k\<bar>
          then (if 0 < real_of_int k then PosInfinity else NegInfinity)
          else Finite (real_of_int k))"
    by (simp only: Let_def e m u y)
  also have "\<dots> = Finite (real_of_int k)"
    by (simp only: small if_False)
  finally show ?thesis .
qed

lemma double_numeral [simp]:
  "(numeral w :: int) < 2 ^ 53 \<Longrightarrow> double (numeral w) = Finite (numeral w)"
  using double_of_int [of "numeral w"] by simp

lemma double_neg_numeral [simp]:
  "(numeral w :: int) < 2 ^ 53 \<Longrightarrow> double (- numeral w) = Finite (- numeral w)"
  using double_of_int [of "- numeral w"] by simp

lemma double_0 [simp]: "double 0 = Finite 0"
  by (simp add: double_def)

lemma double_1 [simp]: "double 1 = Finite 1"
  using double_of_int [of 1] by simp

lemmas double_unfold = double_def ilog2_def pow2_def round_even_def compute_bitlen Let_def

lemma double_facts [simp]:
  "double (1 / 2) = Finite (1 / 2)"
  "double (89 / 2) = Finite (89 / 2)"
  "double (99 / 2) = Finite (99 / 2)"
  "double (109 / 2) = Finite (109 / 2)"
  "double (- (1 / 10)) = Finite (- (3602879701896397 / 36028797018963968))"
  "double (- (3 / 1000)) = Finite (- (3458764513820541 / 1152921504606846976))"
  "double (- (90071992547409925 / 18014398509481984)) = Finite (- 5)"
  "double (- (432345564227567625 / 72057594037927936)) = Finite (- 6)"
  "double (- (356685090487743303 / 36028797018963968)) = Finite (- (5573204538870989 / 562949953421312))"
  "double (56294995342131 / 562949953421312) = Finite (56294995342131 / 562949953421312)"
  by (simp_all add: double_unfold)

lemmas crop_eval = cropImageFromBlob_def toBlob_def cropCanvas_def wholeImage_def finalW_def
  finalH_def finalX_def finalY_def pixelX_def pixelY_def pixelW_def pixelH_def padding_def
  size_encoder_def jpeg_blob_def Let_def number_of_int_def number_of_nat_def num_sub_def

lemma degenerate_is_whole:
  "le_zero (finalW xmin xmax w) \<or> le_zero (finalH ymin ymax h) \<Longrightarrow>
   cropCanvas img w h ymin xmin ymax xmax = wholeImage img w h"
  by (simp add: cropCanvas_def)

text \<open>
  Claim C3: a box that violates \<open>ymin < ymax\<close> or \<open>xmin < xmax\<close> yields the crop of
  the entire image, the box \<open>[500, 500, 400, 400]\<close> the same crop as
  \<open>[0, 0, 1000, 1000]\<close>. The code tests the width and height after the padding of 10
  pixels has been added. On an image of 2000 by 2000 pixels the box
  \<open>[500, 500, 497, 497]\<close> gives a canvas of 4 by 4 pixels showing the region at
  \<open>(995, 995)\<close>. On an image of 50 by 50 pixels the box \<open>[500, 500, 400, 400]\<close>
  gives the 5 by 5 region at \<open>(20, 20)\<close>, and on one of 99 by 99 pixels a canvas
  without pixels, so that the call is rejected, while \<open>[0, 0, 1000, 1000]\<close> gives the
  whole image in each case.
\<close>

theorem crop_inverted_box_not_whole_image:
  "cropCanvas jpeg_blob 2000 2000 500 500 497 497
     = \<lparr> canvas_width = 4, canvas_height = 4, canvas_ops = [],
         drawn = Some (jpeg_blob, (995, 995, 4, 4), (0, 0, 4, 4)) \<rparr> \<and>
   cropCanvas jpeg_blob 2000 2000 0 0 1000 1000
     = \<lparr> canvas_width = 2000, canvas_height = 2000, canvas_ops = [],
         drawn = Some (jpeg_blob, (0, 0, 2000, 2000), (0, 0, 2000, 2000)) \<rparr> \<and>
   cropCanvas jpeg_blob 50 50 500 500 400 400
     = \<lparr> canvas_width = 5, canvas_height = 5, canvas_ops = [],
         drawn = Some (jpeg_blob, (20, 20, 5, 5), (0, 0, 5, 5)) \<rparr> \<and>
   cropCanvas jpeg_blob 50 50 0 0 1000 1000 = wholeImage jpeg_blob 50 50 \<and>
   cropImageFromBlob (\<lambda>b. Some (99, 99)) True size_encoder jpeg_blob (Some [500, 500, 400, 400])
     = Inl CanvasToBlobFailed \<and>
   cropImageFromBlob (\<lambda>b. Some (99, 99)) True size_encoder jpeg_blob (Some [0, 0, 1000, 1000])
     = Inr \<lparr> blob_type = js ''image/png'', blob_bytes = [99, 99] \<rparr>"
  by (simp add: crop_eval)

text \<open>
  Claim C8, as the code has it. For a box of at least four elements every blob the
  cropper returns is a PNG; for a missing box or one of fewer than four elements it
  returns the source blob itself, in the format of the source.
\<close>

theorem crop_output_format:
  "(4 \<le> length b \<and> cropImageFromBlob decode ctx encode src (Some b) = Inr out
      \<longrightarrow> blob_type out = js ''image/png'') \<and>
   (length b < 4 \<longrightarrow> cropImageFromBlob decode ctx encode src (Some b) = Inr src) \<and>
   cropImageFromBlob decode ctx encode src None = Inr src"
  by (auto simp: cropImageFromBlob_def Let_def split: option.splits if_splits)

theorem crop_output_format_witness:
  "(4::nat) \<le> length [0, 0, 1000, 1000 :: int] \<and>
   cropImageFromBlob (\<lambda>_. Some (200, 200)) True size_encoder jpeg_blob (Some [0, 0, 1000, 1000])
     = Inr \<lparr> blob_type = js ''image/png'', blob_bytes = [200, 200] \<rparr> \<and>
   blob_type \<lparr> blob_type = js ''image/png'', blob_bytes = [200, 200] \<rparr> = js ''image/png'' \<and>
   length [10, 20, 30 :: int] < 4 \<and>
   cropImageFromBlob (\<lambda>_. Some (200, 200)) True size_encoder jpeg_blob (Some [10, 20, 30])
     = Inr jpeg_blob"
  using crop_output_format
    [of "[0, 0, 1000, 1000]" "\<lambda>_. Some (200, 200)" True size_encoder jpeg_blob
        "\<lparr> blob_type = js ''image/png'', blob_bytes = [200, 200] \<rparr>"]
    crop_output_format
    [of "[10, 20, 30]" "\<lambda>_. Some (200, 200)" True size_encoder jpeg_blob]
  by (simp add: crop_eval)

text \<open>A JPEG source and a box of three elements: the result is the JPEG.\<close>

theorem crop_short_box_counterexample:
  "cropImageFromBlob (\<lambda>_. Some (200, 200)) True size_encoder jpeg_blob (Some [10, 20, 30])
     = Inr jpeg_blob \<and>
   blob_type jpeg_blob = js ''image/jpeg'' \<and>
   blob_type jpeg_blob \<noteq> js ''image/png''"
  by (simp add: crop_eval js_def)

lemma rotation_centre:
  "transform_point (canvas_transform (rotationCanvas img w h r))
       (rect_centre (- real w / 2, - real h / 2, real w, real h))
     = canvas_centre (rotationCanvas img w h r)"
  by (simp add: rotationCanvas_def Let_def transform_point_def rect_centre_def canvas_centre_def
      rotate_def translate_def identity_matrix_def canvas_transform_def)

lemma rotation_drawn:
  "0 < w \<Longrightarrow> 0 < h \<Longrightarrow>
   drawn (rotationCanvas img w h r)
     = Some (img, (0, 0, real w, real h), (- real w / 2, - real h / 2, real w, real h))"
  by (simp add: rotationCanvas_def Let_def number_of_nat_def)

lemma rotation_toBlob:
  "0 < w \<Longrightarrow> 0 < h \<Longrightarrow>
   toBlob encode mime (rotationCanvas img w h r) = encode mime (rotationCanvas img w h r)"
  by (simp add: toBlob_def rotationCanvas_def Let_def)

text \<open>
  Claim C9. Rotation 0 returns the input file itself. For 90 and 270 degrees the canvas
  is as wide as the image is high and as high as the image is wide. For every angle the
  whole image is drawn, its centre on the origin of user space, under the rotation by
  that angle which carries this centre to the centre of the canvas, and the file
  returned is the encoding of that canvas under the name and type of the input.
\<close>

theorem rotation_transform:
  "processImageWithRotation decode ctx encode file 0 = Inr file \<and>
   (r = 90 \<or> r = 270 \<longrightarrow>
      canvas_width (rotationCanvas img w h r) = h \<and>
      canvas_height (rotationCanvas img w h r) = w) \<and>
   (r \<noteq> 90 \<and> r \<noteq> 270 \<longrightarrow>
      canvas_width (rotationCanvas img w h r) = w \<and>
      canvas_height (rotationCanvas img w h r) = h) \<and>
   (0 < w \<and> 0 < h \<longrightarrow>
      drawn (rotationCanvas img w h r)
        = Some (img, (0, 0, real w, real h), (- real w / 2, - real h / 2, real w, real h))) \<and>
   rect_centre (- real w / 2, - real h / 2, real w, real h) = (0, 0) \<and>
   transform_point (canvas_transform (rotationCanvas img w h r))
       (rect_centre (- real w / 2, - real h / 2, real w, real h))
     = canvas_centre (rotationCanvas img w h r) \<and>
   m_a (canvas_transform (rotationCanvas img w h r)) = cos (real_of_int r * pi / 180) \<and>
   m_b (canvas_transform (rotationCanvas img w h r)) = sin (real_of_int r * pi / 180) \<and>
   m_c (canvas_transform (rotationCanvas img w h r)) = - sin (real_of_int r * pi / 180) \<and>
   m_d (canvas_transform (rotationCanvas img w h r)) = cos (real_of_int r * pi / 180) \<and>
   (r \<noteq> 0 \<and> decode (Blob.truncate file) = Some (w, h) \<and> 0 < w \<and> 0 < h \<and> ctx \<and>
    encode (blob_type file) (rotationCanvas (Blob.truncate file) w h r) = Some bytes \<longrightarrow>
      processImageWithRotation decode ctx encode file r
        = Inr \<lparr> blob_type = blob_type file, blob_bytes = bytes,
                file_name = file_name file, webkitRelativePath = [] \<rparr>)"
proof -
  have a: "processImageWithRotation decode ctx encode file 0 = Inr file"
    by (simp add: processImageWithRotation_def)
  have b: "(r = 90 \<or> r = 270 \<longrightarrow>
      canvas_width (rotationCanvas img w h r) = h \<and>
      canvas_height (rotationCanvas img w h r) = w) \<and>
   (r \<noteq> 90 \<and> r \<noteq> 270 \<longrightarrow>
      canvas_width (rotationCanvas img w h r) = w \<and>
      canvas_height (rotationCanvas img w h r) = h)"
    by (simp add: rotationCanvas_def Let_def)
  have c: "0 < w \<and> 0 < h \<longrightarrow>
      drawn (rotationCanvas img w h r)
        = Some (img, (0, 0, real w, real h), (- real w / 2, - real h / 2, real w, real h))"
    by (simp add: rotation_drawn)
  have d: "rect_centre (- real w / 2, - real h / 2, real w, real h) = (0, 0)"
    by (simp add: rect_centre_def)
  have e: "m_a (canvas_transform (rotationCanvas img w h r)) = cos (real_of_int r * pi / 180) \<and>
   m_b (canvas_transform (rotationCanvas img w h r)) = sin (real_of_int r * pi / 180) \<and>
   m_c (canvas_transform (rotationCanvas img w h r)) = - sin (real_of_int r * pi / 180) \<and>
   m_d (canvas_transform (rotationCanvas img w h r)) = cos (real_of_int r * pi / 180)"
    by (simp add: rotationCanvas_def Let_def rotate_def translate_def identity_matrix_def
        canvas_transform_def)
  have f: "r \<noteq> 0 \<and> decode (Blob.truncate file) = Some (w, h) \<and> 0 < w \<and> 0 < h \<and> ctx \<and>
    encode (blob_type file) (rotationCanvas (Blob.truncate file) w h r) = Some bytes \<longrightarrow>
      processImageWithRotation decode ctx encode file r
        = Inr \<lparr> blob_type = blob_type file, blob_bytes = bytes,
                file_name = file_name file, webkitRelativePath = [] \<rparr>"
    by (simp add: processImageWithRotation_def rotation_toBlob)
  from a b c d e f rotation_centre [of img w h r] show ?thesis
    by blast
qed

theorem rotation_transform_witness:
  "processImageWithRotation (\<lambda>_. Some (30, 20)) True size_encoder scan_file 0 = Inr scan_file \<and>
   canvas_width (rotationCanvas (Blob.truncate scan_file) 30 20 90) = 20 \<and>
   canvas_height (rotationCanvas (Blob.truncate scan_file) 30 20 90) = 30 \<and>
   canvas_width (rotationCanvas (Blob.truncate scan_file) 30 20 180) = 30 \<and>
   canvas_height (rotationCanvas (Blob.truncate scan_file) 30 20 180) = 20 \<and>
   drawn (rotationCanvas (Blob.truncate scan_file) 30 20 90)
     = Some (Blob.truncate scan_file, (0, 0, 30, 20), (- 15, - 10, 30, 20)) \<and>
   transform_point (canvas_transform (rotationCanvas (Blob.truncate scan_file) 30 20 90)) (0, 0)
     = (10, 15) \<and>
   processImageWithRotation (\<lambda>_. Some (30, 20)) True size_encoder scan_file 90
     = Inr \<lparr> blob_type = js ''image/jpeg'', blob_bytes = [20, 30],
             file_name = js ''scan.jpg'', webkitRelativePath = [] \<rparr>"
  using rotation_transform
    [of "\<lambda>_. Some (30, 20)" True size_encoder scan_file 90 "Blob.truncate scan_file" 30 20 "[20, 30]"]
    rotation_transform
    [of "\<lambda>_. Some (30, 20)" True size_encoder scan_file 180 "Blob.truncate scan_file" 30 20 "[30, 20]"]
  by (simp add: rotationCanvas_def Let_def size_encoder_def scan_file_def rect_centre_def
      canvas_centre_def Blob.truncate_def File.truncate_def number_of_nat_def)

section \<open>Properties of the PDF extraction and of the summary text\<close>

lemma renderPages_acc:
  "renderPages i doc pageBlobs console =
     (pageBlobs @ rendered_pages doc,
      console @ map (\<lambda>k. ErrorRenderingPage (i + k))
                  (filter (\<lambda>k. (doc ! k) 2 = RenderThrows) [0..<length doc]))"
proof (induction doc arbitrary: i pageBlobs console)
  case Nil
  then show ?case by (simp add: rendered_pages_def)
next
  case (Cons page rest)
  have shift: "filter (\<lambda>k. ((page # rest) ! k) 2 = RenderThrows) [0..<Suc (length rest)]
      = (if page 2 = RenderThrows then [0] else [])
        @ map Suc (filter (\<lambda>k. (rest ! k) 2 = RenderThrows) [0..<length rest])"
    by (simp add: upt_conv_Cons map_Suc_upt [symmetric] filter_map comp_def del: upt_Suc)
  show ?case
    by (cases "page 2")
       (simp_all add: Cons.IH shift rendered_pages_def comp_def del: upt_Suc)
qed

lemma convertPdf_loaded:
  assumes "load file = Some doc"
  shows "convertPdfToImages load file =
     (if rendered_pages doc = [] then Inl NoPdfPages else Inr (rendered_pages doc),
      map ErrorRenderingPage (throwing_pages doc))"
  using assms
  by (simp add: convertPdfToImages_def renderPages_acc throwing_pages_def comp_def)

lemma throwing_pages_iff:
  "i < length doc \<Longrightarrow>
   ErrorRenderingPage (Suc i) \<in> set (map ErrorRenderingPage (throwing_pages doc))
     \<longleftrightarrow> (doc ! i) 2 = RenderThrows"
  by (auto simp: throwing_pages_def)

text \<open>
  Claim C6, as the code has it. Every page of a loaded PDF is rendered in page order at
  scale 2. A page whose rendering throws leaves one console entry with its number and no
  raster; a page for which the canvas gives no 2D context or \<open>toBlob\<close> gives no blob
  leaves no raster and no console entry; the other pages are still rendered.
  \<open>convertPdfToImages\<close> throws exactly when the file yields no raster at all, which
  includes the file that does not load, and otherwise returns the rasters of the
  rendered pages in page order.
\<close>

theorem convertPdf_skips_failed_pages:
  "(load file = Some doc \<longrightarrow>
      fst (convertPdfToImages load file)
        = (if rendered_pages doc = [] then Inl NoPdfPages else Inr (rendered_pages doc)) \<and>
      snd (convertPdfToImages load file) = map ErrorRenderingPage (throwing_pages doc)) \<and>
   ((\<exists>e. fst (convertPdfToImages load file) = Inl e) \<longleftrightarrow> usable_pages load file = []) \<and>
   (usable_pages load file \<noteq> [] \<longrightarrow>
      fst (convertPdfToImages load file) = Inr (usable_pages load file)) \<and>
   (load file = None \<longrightarrow> convertPdfToImages load file = (Inl PdfLoadFailed, [])) \<and>
   (load file = Some doc \<longrightarrow>
      (\<forall>i < length doc.
         ErrorRenderingPage (Suc i) \<in> set (snd (convertPdfToImages load file))
           \<longleftrightarrow> (doc ! i) 2 = RenderThrows))"
proof (cases "load file")
  case None
  then show ?thesis by (simp add: convertPdfToImages_def usable_pages_def)
next
  case (Some doc')
  then show ?thesis
    using convertPdf_loaded [of load _ doc'] throwing_pages_iff [of _ doc']
    by (auto simp: usable_pages_def)
qed

text \<open>
  A page without a 2D context and a page without a blob are skipped with nothing
  logged; a file whose only page has no 2D context fails with an empty console.
\<close>

theorem convertPdf_silent_skip_counterexample:
  "convertPdfToImages
       (\<lambda>_. Some [\<lambda>scale. NoContext, \<lambda>scale. Rendered (page_blob 2), \<lambda>scale. NullBlob]) scan_file
     = (Inr [page_blob 2], []) \<and>
   convertPdfToImages (\<lambda>_. Some [\<lambda>scale. NoContext]) scan_file = (Inl NoPdfPages, []) \<and>
   convertPdfToImages (\<lambda>_. Some [\<lambda>scale. NullBlob]) scan_file = (Inl NoPdfPages, [])"
  by (simp add: convertPdfToImages_def)

lemma narrative_iff: "spec_narrative k \<longleftrightarrow> k \<noteq> image_crop \<and> k \<noteq> table_crop"
  by (cases k) simp_all

lemma fullText_spec: "fullText pages = spec_summary_text pages"
proof -
  have "(\<lambda>p. join [0x20]
            (map block_text
               (filter (\<lambda>b. block_kind b \<noteq> image_crop \<and> block_kind b \<noteq> table_crop)
                       (blocks (analysis p))))) = spec_page_text"
    by (rule ext) (simp add: spec_page_text_def narrative_iff js_def)
  then show ?thesis
    by (simp add: fullText_def spec_summary_text_def)
qed

lemma length_trim: "length (trim s) \<le> length s"
proof -
  have "length (trim s) \<le> length (dropWhile is_space s)"
    unfolding trim_def length_rev by (metis length_dropWhile_le length_rev)
  also have "\<dots> \<le> length s" by (rule length_dropWhile_le)
  finally show ?thesis .
qed

lemma length_sanitizeText: "length (sanitizeText s) \<le> length s"
proof -
  have "length (trim (filter (\<lambda>c. \<not> is_control c) s)) \<le> length (filter (\<lambda>c. \<not> is_control c) s)"
    by (rule length_trim)
  also have "\<dots> \<le> length s" by (rule length_filter_le)
  finally show ?thesis by (simp add: sanitizeText_def)
qed

lemma length_sanitizedInput: "length (sanitizedInput s) \<le> 60000"
proof -
  have "length (sanitizedInput s) \<le> length (substring s 0 60000)"
    unfolding sanitizedInput_def by (rule length_sanitizeText)
  also have "\<dots> \<le> 60000" by (simp add: substring_def)
  finally show ?thesis .
qed

text \<open>
  Claim C5. The text built for the summary is the text of the blocks whose type is
  neither \<open>image_crop\<close> nor \<open>table_crop\<close> (so \<open>formula_crop\<close> text is in it), in page
  order, joined by single spaces within a page and by a blank line between pages; its
  first 60000 code units, sanitized, are what the summarization call receives, and that
  is at most 60000 code units long.
\<close>

theorem summary_input_text:
  "fullText pages = spec_summary_text pages \<and>
   generateSummary True summarize (fullText pages) language
     = Inr (summarize (sanitizeText (take 60000 (spec_summary_text pages)))) \<and>
   length (sanitizeText (take 60000 (spec_summary_text pages))) \<le> 60000"
proof -
  have "sanitizedInput (fullText pages) = sanitizeText (take 60000 (spec_summary_text pages))"
    by (simp add: sanitizedInput_def substring_def fullText_spec)
  then show ?thesis
    using length_sanitizedInput [of "fullText pages"]
    by (simp add: generateSummary_def getAiClient_def fullText_spec)
qed

theorem convertPdf_skips_failed_pages_witness:
  "convertPdfToImages (\<lambda>_. Some sample_pdf) scan_file
     = (Inr [page_blob 1, page_blob 4], [ErrorRenderingPage 2]) \<and>
   usable_pages (\<lambda>_. Some sample_pdf) scan_file \<noteq> [] \<and>
   convertPdfToImages (\<lambda>_. Some [\<lambda>scale. RenderThrows]) scan_file
     = (Inl NoPdfPages, [ErrorRenderingPage 1]) \<and>
   usable_pages (\<lambda>_. Some [\<lambda>scale. RenderThrows]) scan_file = [] \<and>
   convertPdfToImages (\<lambda>_. None) scan_file = (Inl PdfLoadFailed, [])"
  using convertPdf_skips_failed_pages [of "\<lambda>_. Some sample_pdf" scan_file sample_pdf]
    convertPdf_skips_failed_pages
      [of "\<lambda>_. Some [\<lambda>scale. RenderThrows]" scan_file "[\<lambda>scale. RenderThrows]"]
    convertPdf_skips_failed_pages [of "\<lambda>_. None" scan_file "[]"]
  by (simp add: convertPdfToImages_def sample_pdf_def usable_pages_def rendered_pages_def
      throwing_pages_def)

theorem summary_input_text_example:
  "fullText sample_pages = js ''ab f'' @ [0x0A, 0x0A] @ js ''h'' \<and>
   generateSummary True id (fullText sample_pages) (js ''Russian'') = Inr (js ''ab f'' @ [0x0A, 0x0A] @ js ''h'')"
proof -
  have e: "spec_summary_text sample_pages = js ''ab f'' @ [0x0A, 0x0A] @ js ''h''"
    by (simp add: spec_summary_text_def spec_page_text_def page_of_blocks_def text_block_def
        js_def sample_pages_def)
  have s: "sanitizeText (take 60000 (js ''ab f'' @ [0x0A, 0x0A] @ js ''h''))
      = js ''ab f'' @ [0x0A, 0x0A] @ js ''h''"
    by (simp add: js_def sanitizeText_def trim_def is_space_def is_control_def)
  show ?thesis
    using summary_input_text [of sample_pages id "js ''Russian''"] unfolding e s id_apply by blast
qed

section \<open>Properties of the ingestion\<close>

lemma fst_update_entry:
  "map fst (map (\<lambda>(k', items). if k' = k then (k', items @ [item]) else (k', items)) g)
     = map fst g"
  by (induction g) auto

lemma push_item_fst:
  "map fst (push_item g k item) = (if k \<in> set (map fst g) then map fst g else map fst g @ [k])"
  unfolding push_item_def by (simp only: fst_update_entry split: if_split) simp

lemma push_item_keys: "set (map fst (push_item g k item)) = insert k (set (map fst g))"
  unfolding push_item_fst by auto

lemma push_item_distinct:
  assumes "distinct (map fst g)"
  shows "distinct (map fst (push_item g k item))"
  unfolding push_item_fst using assms by auto

lemma map_of_update_entry:
  "map_of (map (\<lambda>(k', items). if k' = k then (k', items @ [item]) else (k', items)) g) k'
     = (if k' = k then map_option (\<lambda>v. v @ [item]) (map_of g k) else map_of g k')"
  by (induction g) auto

lemma push_item_items:
  "items_of (push_item g k item) k' = (if k' = k then items_of g k @ [item] else items_of g k')"
proof (cases "k \<in> set (map fst g)")
  case True
  then obtain v where "map_of g k = Some v"
    by (metis map_of_eq_None_iff not_Some_eq set_map)
  with True show ?thesis
    by (simp add: items_of_def push_item_def map_of_update_entry)
next
  case False
  then have "map_of g k = None"
    by (simp add: map_of_eq_None_iff)
  with False show ?thesis
    by (auto simp: items_of_def push_item_def map_add_def split: option.splits)
qed

lemma groupFiles_inv:
  assumes "groupFiles fs g0 = Inr g" and "distinct (map fst g0)"
  shows "distinct (map fst g) \<and>
         set (map fst g) = set (map fst g0) \<union> folderOf ` {f \<in> set fs. accepted f} \<and>
         (\<forall>k. items_of g k
               = items_of g0 k @ map (newFileItem k) (filter (\<lambda>f. accepted f \<and> folderOf f = k) fs))"
  using assms
proof (induction fs arbitrary: g0)
  case Nil
  then show ?case by simp
next
  case (Cons f fs)
  show ?case
  proof (cases "accepted f")
    case False
    with Cons.prems have "groupFiles fs g0 = Inr g"
      by (simp add: accepted_def)
    from Cons.IH [OF this Cons.prems(2)] False show ?thesis
      by auto
  next
    case True
    with Cons.prems have ok: "folderOf f \<notin> set object_prototype_keys"
      and rec: "groupFiles fs (push_item g0 (folderOf f) (newFileItem (folderOf f) f)) = Inr g"
      by (auto simp: accepted_def Let_def split: if_splits)
    let ?g1 = "push_item g0 (folderOf f) (newFileItem (folderOf f) f)"
    have d1: "distinct (map fst ?g1)"
      using Cons.prems(2) by (rule push_item_distinct)
    from Cons.IH [OF rec d1] True show ?thesis
      by (auto simp: push_item_keys push_item_items simp del: set_map)
  qed
qed

lemma mset_insert_by: "mset (insert_by cmp x ys) = add_mset x (mset ys)"
  by (induction ys) auto

lemma mset_array_sort: "mset (array_sort cmp xs) = mset xs"
  by (induction xs) (auto simp: array_sort_def mset_insert_by)

lemma set_object_entries: "set (object_entries g) = set g"
  by (auto simp: object_entries_def)

lemma distinct_object_entries:
  assumes "distinct (map fst g)"
  shows "distinct (map fst (object_entries g))"
proof -
  have "mset (object_entries g) = mset g"
    by (simp add: object_entries_def)
  then have "mset (map fst (object_entries g)) = mset (map fst g)"
    by (metis mset_map)
  then show ?thesis
    using assms by (metis distinct_count_atmost_1 set_mset_mset)
qed

lemma folders_of_groups:
  assumes "handleFileInputChange collate old allFiles = Inr folders" and "allFiles \<noteq> []"
  obtains g where "groupFiles allFiles [] = Inr g"
    and "folders = map (\<lambda>(name, fs).
                            \<lparr> folderName = name,
                              files = naturalSort collate fs item_name,
                              status = pending,
                              resultDocBlob = None \<rparr>) (object_entries g)"
  using assms by (auto simp: handleFileInputChange_def split: sum.splits)

lemma groupFiles_succeeds:
  assumes "\<forall>f \<in> set fs. accepted f \<longrightarrow> folderOf f \<notin> set object_prototype_keys"
  shows "\<exists>g. groupFiles fs g0 = Inr g"
  using assms by (induction fs arbitrary: g0) (auto simp: accepted_def Let_def)

lemma groupFiles_throws:
  assumes "\<exists>f \<in> set fs. accepted f \<and> folderOf f \<in> set object_prototype_keys"
  shows "groupFiles fs g0 = Inl PushIsNotAFunction"
  using assms by (induction fs arbitrary: g0) (auto simp: accepted_def Let_def)

lemma folders_properties:
  assumes "handleFileInputChange collate old allFiles = Inr folders" and "allFiles \<noteq> []"
  shows "(\<forall>fg \<in> set folders.
            mset (files fg)
              = mset (map (newFileItem (folderName fg))
                          (filter (\<lambda>f. accepted f \<and> folderOf f = folderName fg) allFiles))) \<and>
         set (map folderName folders) = folderOf ` {f \<in> set allFiles. accepted f} \<and>
         distinct (map folderName folders)"
proof -
  from assms obtain g where g: "groupFiles allFiles [] = Inr g"
    and folders: "folders = map (\<lambda>(name, fs).
                            \<lparr> folderName = name,
                              files = naturalSort collate fs item_name,
                              status = pending,
                              resultDocBlob = None \<rparr>) (object_entries g)"
    by (rule folders_of_groups)
  from groupFiles_inv [OF g] have dist: "distinct (map fst g)"
    and keys: "set (map fst g) = folderOf ` {f \<in> set allFiles. accepted f}"
    and items: "\<And>k. items_of g k
        = map (newFileItem k) (filter (\<lambda>f. accepted f \<and> folderOf f = k) allFiles)"
    by (simp_all add: items_of_def)
  have names: "map folderName folders = map fst (object_entries g)"
    unfolding folders by (simp add: comp_def case_prod_unfold)
  have a: "\<forall>fg \<in> set folders.
            mset (files fg)
              = mset (map (newFileItem (folderName fg))
                          (filter (\<lambda>f. accepted f \<and> folderOf f = folderName fg) allFiles))"
  proof
    fix fg assume "fg \<in> set folders"
    then obtain k v where kv: "(k, v) \<in> set g"
      and fg: "folderName fg = k" "files fg = naturalSort collate v item_name"
      unfolding folders by (auto simp: set_object_entries)
    from kv dist have "map_of g k = Some v"
      by simp
    then have "items_of g k = v"
      by (simp add: items_of_def)
    with items [of k] fg show "mset (files fg)
              = mset (map (newFileItem (folderName fg))
                          (filter (\<lambda>f. accepted f \<and> folderOf f = folderName fg) allFiles))"
      by (simp add: naturalSort_def mset_array_sort)
  qed
  have b: "set (map folderName folders) = folderOf ` {f \<in> set allFiles. accepted f}"
    unfolding names using keys by (simp add: set_object_entries)
  have c: "distinct (map folderName folders)"
    unfolding names using dist by (rule distinct_object_entries)
  from a b c show ?thesis by blast
qed

text \<open>
  Claim C4, as the code has it. The ingestion of a non-empty selection in which no
  accepted file lies in a folder called like a property of \<open>Object.prototype\<close> yields
  a folder list, and in it the item list of every folder holds exactly one item for
  every accepted file of that folder, duplicates included: nothing is overwritten. Each
  folder name occurs once. When an accepted file does lie in such a folder the handler
  throws and yields no folder list; an empty selection leaves the folder list as it
  was. Files that agree on folder, name and size get the same identifier.
\<close>

theorem ingestion_keeps_every_file:
  "((\<forall>f \<in> set allFiles. accepted f \<longrightarrow> folderOf f \<notin> set object_prototype_keys) \<and>
      allFiles \<noteq> [] \<longrightarrow>
      (\<exists>folders.
         handleFileInputChange collate old allFiles = Inr folders \<and>
         (\<forall>fg \<in> set folders.
            mset (files fg)
              = mset (map (newFileItem (folderName fg))
                          (filter (\<lambda>f. accepted f \<and> folderOf f = folderName fg) allFiles))) \<and>
         set (map folderName folders) = folderOf ` {f \<in> set allFiles. accepted f} \<and>
         distinct (map folderName folders))) \<and>
   ((\<exists>f \<in> set allFiles. accepted f \<and> folderOf f \<in> set object_prototype_keys) \<longrightarrow>
      handleFileInputChange collate old allFiles = Inl PushIsNotAFunction) \<and>
   handleFileInputChange collate old [] = Inr old \<and>
   (\<forall>f g. folderOf f = folderOf g \<and> file_name f = file_name g \<and> file_size f = file_size g
      \<longrightarrow> item_id (newFileItem (folderOf f) f) = item_id (newFileItem (folderOf g) g))"
proof -
  have a: "\<exists>folders.
         handleFileInputChange collate old allFiles = Inr folders \<and>
         (\<forall>fg \<in> set folders.
            mset (files fg)
              = mset (map (newFileItem (folderName fg))
                          (filter (\<lambda>f. accepted f \<and> folderOf f = folderName fg) allFiles))) \<and>
         set (map folderName folders) = folderOf ` {f \<in> set allFiles. accepted f} \<and>
         distinct (map folderName folders)"
    if ok: "\<forall>f \<in> set allFiles. accepted f \<longrightarrow> folderOf f \<notin> set object_prototype_keys"
      and ne: "allFiles \<noteq> []"
  proof -
    from groupFiles_succeeds [OF ok, of "[]"] obtain g where "groupFiles allFiles [] = Inr g"
      by blast
    with ne obtain folders where r: "handleFileInputChange collate old allFiles = Inr folders"
      by (simp add: handleFileInputChange_def)
    from folders_properties [OF r ne] r show ?thesis
      by blast
  qed
  have b: "handleFileInputChange collate old allFiles = Inl PushIsNotAFunction"
    if bad: "\<exists>f \<in> set allFiles. accepted f \<and> folderOf f \<in> set object_prototype_keys"
  proof -
    from bad have "allFiles \<noteq> []" by auto
    with groupFiles_throws [OF bad, of "[]"] show ?thesis
      by (simp add: handleFileInputChange_def)
  qed
  have c: "handleFileInputChange collate old [] = Inr old"
    by (simp add: handleFileInputChange_def)
  have d: "\<forall>f g. folderOf f = folderOf g \<and> file_name f = file_name g \<and> file_size f = file_size g
            \<longrightarrow> item_id (newFileItem (folderOf f) f) = item_id (newFileItem (folderOf g) g)"
    by (simp add: newFileItem_def)
  from a b c d show ?thesis by blast
qed

lemma file_size_picked:
  "file_size \<lparr> blob_type = t, blob_bytes = [a, b, c], file_name = n, webkitRelativePath = p \<rparr> = 3"
  by (simp add: file_size_def)

lemmas ingest_eval = handleFileInputChange_def isImage_def isPdf_def
  starts_with_def ends_with_ci_def to_lower_def folderOf_def newFileItem_def push_item_def
  object_prototype_keys_def object_entries_def is_array_index_def is_digit_def
  digits_value_def naturalSort_def array_sort_def file_size_picked js_def Let_def accepted_def

lemma decimal_3: "decimal 3 = [0x33]"
  by (simp add: decimal.simps [of 3])

text \<open>
  Two files \<open>p1.jpg\<close> of three bytes under \<open>root/a/scans\<close> and \<open>root/b/scans\<close>
  fall into the folder \<open>scans\<close> with the same identifier; the item list holds both.
\<close>

theorem ingestion_duplicate_counterexample:
  "handleFileInputChange (\<lambda>a b. 0) []
       [picked_file ''image/jpeg'' ''root/a/scans/p1.jpg'' ''p1.jpg'', picked_file ''image/jpeg'' ''root/b/scans/p1.jpg'' ''p1.jpg'']
     = Inr [\<lparr> folderName = js ''scans'',
              files = [newFileItem (js ''scans'') (picked_file ''image/jpeg'' ''root/a/scans/p1.jpg'' ''p1.jpg''),
                       newFileItem (js ''scans'') (picked_file ''image/jpeg'' ''root/b/scans/p1.jpg'' ''p1.jpg'')],
              status = pending, resultDocBlob = None \<rparr>] \<and>
   item_id (newFileItem (js ''scans'') (picked_file ''image/jpeg'' ''root/a/scans/p1.jpg'' ''p1.jpg''))
     = js ''scans_p1.jpg_3'' \<and>
   item_id (newFileItem (js ''scans'') (picked_file ''image/jpeg'' ''root/b/scans/p1.jpg'' ''p1.jpg''))
     = js ''scans_p1.jpg_3''"
  by (simp add: ingest_eval decimal_3 picked_file_def)

text \<open>
  Two copies of \<open>P1.JPG\<close> and a text file under \<open>root/a\<close>: the folder \<open>a\<close> holds
  both copies. A scan under \<open>root/constructor\<close> makes the handler throw.
\<close>

theorem ingestion_keeps_every_file_witness:
  "accepted (picked_file '''' ''root/a/P1.JPG'' ''P1.JPG'') \<and>
   folderOf (picked_file '''' ''root/a/P1.JPG'' ''P1.JPG'') \<notin> set object_prototype_keys \<and>
   \<not> accepted (picked_file ''text/plain'' ''root/a/notes.txt'' ''notes.txt'') \<and>
   handleFileInputChange (\<lambda>a b. 0) []
       [picked_file '''' ''root/a/P1.JPG'' ''P1.JPG'',
        picked_file ''text/plain'' ''root/a/notes.txt'' ''notes.txt'',
        picked_file '''' ''root/a/P1.JPG'' ''P1.JPG'']
     = Inr [\<lparr> folderName = js ''a'',
              files = [newFileItem (js ''a'') (picked_file '''' ''root/a/P1.JPG'' ''P1.JPG''),
                       newFileItem (js ''a'') (picked_file '''' ''root/a/P1.JPG'' ''P1.JPG'')],
              status = pending, resultDocBlob = None \<rparr>] \<and>
   mset [newFileItem (js ''a'') (picked_file '''' ''root/a/P1.JPG'' ''P1.JPG''),
         newFileItem (js ''a'') (picked_file '''' ''root/a/P1.JPG'' ''P1.JPG'')]
     = mset (map (newFileItem (js ''a''))
          (filter (\<lambda>f. accepted f \<and> folderOf f = js ''a'')
             [picked_file '''' ''root/a/P1.JPG'' ''P1.JPG'',
              picked_file ''text/plain'' ''root/a/notes.txt'' ''notes.txt'',
              picked_file '''' ''root/a/P1.JPG'' ''P1.JPG''])) \<and>
   accepted (picked_file ''image/jpeg'' ''root/constructor/p1.jpg'' ''p1.jpg'') \<and>
   folderOf (picked_file ''image/jpeg'' ''root/constructor/p1.jpg'' ''p1.jpg'')
     \<in> set object_prototype_keys \<and>
   handleFileInputChange (\<lambda>a b. 0) []
       [picked_file ''image/jpeg'' ''root/constructor/p1.jpg'' ''p1.jpg'']
     = Inl PushIsNotAFunction"
proof -
  let ?sel = "[picked_file '''' ''root/a/P1.JPG'' ''P1.JPG'',
               picked_file ''text/plain'' ''root/a/notes.txt'' ''notes.txt'',
               picked_file '''' ''root/a/P1.JPG'' ''P1.JPG'']"
  let ?bad = "picked_file ''image/jpeg'' ''root/constructor/p1.jpg'' ''p1.jpg''"
  have r: "handleFileInputChange (\<lambda>a b. 0) [] ?sel
     = Inr [\<lparr> folderName = js ''a'',
              files = [newFileItem (js ''a'') (picked_file '''' ''root/a/P1.JPG'' ''P1.JPG''),
                       newFileItem (js ''a'') (picked_file '''' ''root/a/P1.JPG'' ''P1.JPG'')],
              status = pending, resultDocBlob = None \<rparr>]"
    by (simp add: ingest_eval decimal_3 picked_file_def)
  have h: "\<forall>f \<in> set ?sel. accepted f \<longrightarrow> folderOf f \<notin> set object_prototype_keys"
    by (simp add: ingest_eval picked_file_def)
  have k: "accepted ?bad \<and> folderOf ?bad \<in> set object_prototype_keys"
    by (simp add: ingest_eval picked_file_def)
  let ?a = "\<lparr> folderName = js ''a'',
              files = [newFileItem (js ''a'') (picked_file '''' ''root/a/P1.JPG'' ''P1.JPG''),
                       newFileItem (js ''a'') (picked_file '''' ''root/a/P1.JPG'' ''P1.JPG'')],
              status = pending, resultDocBlob = None \<rparr>"
  have ne: "?sel \<noteq> []" by simp
  from ingestion_keeps_every_file [of ?sel "\<lambda>a b. 0" "[]"] h ne
  obtain folders where e: "handleFileInputChange (\<lambda>a b. 0) [] ?sel = Inr folders"
    and p: "\<forall>fg \<in> set folders.
            mset (files fg)
              = mset (map (newFileItem (folderName fg))
                          (filter (\<lambda>f. accepted f \<and> folderOf f = folderName fg) ?sel))"
    by blast
  from e r have f: "folders = [?a]" by simp
  from p have "mset (files ?a)
              = mset (map (newFileItem (folderName ?a))
                          (filter (\<lambda>f. accepted f \<and> folderOf f = folderName ?a) ?sel))"
    unfolding f by (rule bspec) simp
  then have m: "mset [newFileItem (js ''a'') (picked_file '''' ''root/a/P1.JPG'' ''P1.JPG''),
         newFileItem (js ''a'') (picked_file '''' ''root/a/P1.JPG'' ''P1.JPG'')]
     = mset (map (newFileItem (js ''a''))
          (filter (\<lambda>f. accepted f \<and> folderOf f = js ''a'') ?sel))"
    by (simp only: FolderGroup.select_convs)
  from ingestion_keeps_every_file [of "[?bad]" "\<lambda>a b. 0" "[]"] k
  have t: "handleFileInputChange (\<lambda>a b. 0) [] [?bad] = Inl PushIsNotAFunction"
    by simp
  have h': "accepted (picked_file '''' ''root/a/P1.JPG'' ''P1.JPG'') \<and>
     folderOf (picked_file '''' ''root/a/P1.JPG'' ''P1.JPG'') \<notin> set object_prototype_keys \<and>
     \<not> accepted (picked_file ''text/plain'' ''root/a/notes.txt'' ''notes.txt'')"
    by (simp add: ingest_eval picked_file_def)
  from h' r m k t show ?thesis
    by blast
qed

section \<open>Properties of the folder loop\<close>














lemma spec_forward_refl [simp]: "spec_forward s s"
  by (cases s) simp_all

















end
